theory Spec2Isabelle
  imports
    Complex_Main
    "HOL-Library.Char_ord"
    "HOL-Library.List_Lexorder"
    "HOL-Library.Product_Lexorder"
begin

section \<open>Data model of \<^verbatim>\<open>src/telemetry_comparer.py\<close>\<close>

text \<open>
  The class \<^verbatim>\<open>QualifyingComparer\<close> keeps pandas data frames in its attributes and
  rewrites them in place. A data frame is modelled as the list of its rows, in frame order.
  A row is a record of the columns that the modelled methods read or write; a column that a
  frame does not have yet (\<^verbatim>\<open>Driver\<close>, \<^verbatim>\<open>Minisector\<close>, \<^verbatim>\<open>Fastest_driver\<close>,
  \<^verbatim>\<open>Fastest_driver_int\<close>) is \<open>None\<close> in every row, and so is a NaN cell.

  Python floats are modelled by exact rational numbers: the rounding of doubles, their
  underflow to zero, infinities and NaN distances or speeds are outside the model. A
  quotient, a floor or a mean below is therefore the code's only where double arithmetic
  is exact, as it is on the inputs that are evaluated in this theory; no statement below
  says what number the code computes elsewhere. Python exceptions are values of \<open>error\<close>.
\<close>

datatype error = TypeError | ValueError | ZeroDivisionError | OverflowError | IndexError

record sample =
  Distance :: rat
  Speed :: rat
  X :: rat
  Y :: rat
  Driver :: "string option"
  Minisector :: "int option"
  Fastest_driver :: "string option"
  Fastest_driver_int :: "rat option"

type_synonym segment = "(rat \<times> rat) \<times> (rat \<times> rat)"

text \<open>
  The attributes of the object that the modelled methods use. An attribute that
  \<^verbatim>\<open>__init__\<close> sets to \<^verbatim>\<open>None\<close> is an option. Of the laps frames only the
  \<^verbatim>\<open>Team\<close> column is read, so \<open>laps_driver_1\<close> is that column. The line collection
  is the pair of the segments and of the array given to \<^verbatim>\<open>set_array\<close>, whose entry
  \<open>i\<close> colours segment \<open>i\<close>.
\<close>

record QualifyingComparer =
  driver_1 :: string
  driver_2 :: string
  laps_driver_1 :: "string list option"
  laps_driver_2 :: "string list option"
  telemetry_driver_1 :: "sample list option"
  telemetry_driver_2 :: "sample list option"
  team_color_1 :: "string option"
  team_color_2 :: "string option"
  telemetry :: "sample list option"
  line_collection :: "(segment list \<times> rat option list) option"

section \<open>The Merger: \<^verbatim>\<open>_merge_telemetries\<close>\<close>

text \<open>\<^verbatim>\<open>frame["Driver"] = d\<close> writes the column into the frame it is applied to.\<close>

definition set_driver :: "string \<Rightarrow> sample list \<Rightarrow> sample list" where
  "set_driver d rows = map (\<lambda>r. r\<lparr>Driver := Some d\<rparr>) rows"

text \<open>
  Both per-driver frames are tagged in place, then concatenated into \<^verbatim>\<open>__telemetry\<close>.
  Item assignment on \<^verbatim>\<open>None\<close> (a session that was never loaded) raises TypeError.
\<close>

definition merge_telemetries :: "QualifyingComparer \<Rightarrow> error + QualifyingComparer" where
  "merge_telemetries s =
     (case telemetry_driver_1 s of
        None \<Rightarrow> Inl TypeError
      | Some t1 \<Rightarrow>
          (case telemetry_driver_2 s of
             None \<Rightarrow> Inl TypeError
           | Some t2 \<Rightarrow>
               (let t1' = set_driver (driver_1 s) t1;
                    t2' = set_driver (driver_2 s) t2
                in Inr (s\<lparr>telemetry_driver_1 := Some t1',
                          telemetry_driver_2 := Some t2',
                          telemetry := Some (t1' @ t2')\<rparr>))))"

section \<open>The Team Color Resolver: \<^verbatim>\<open>_identify_team_colors\<close>\<close>


section \<open>The Segmenter: \<^verbatim>\<open>process_minisectors\<close>\<close>

text \<open>Python's \<^verbatim>\<open>max\<close> over a column; it raises ValueError on an empty one.\<close>

fun py_max :: "rat list \<Rightarrow> error + rat" where
  "py_max [] = Inl ValueError"
| "py_max (d # ds) = Inr (fold max ds d)"

text \<open>
  \<^verbatim>\<open>total_distance / num_minisectors\<close>: a float divided by an int. The int is
  converted to a double first, which raises OverflowError when it rounds beyond the
  greatest double, that is from \<open>2 ^ 1024 - 2 ^ 970\<close> on; a zero divisor raises
  ZeroDivisionError. The quotient itself is exact here.
\<close>

definition true_div :: "rat \<Rightarrow> int \<Rightarrow> error + rat" where
  "true_div a n =
     (if 2 ^ 1024 - 2 ^ 970 \<le> \<bar>n\<bar> then Inl OverflowError
      else if n = 0 then Inl ZeroDivisionError
      else Inr (a / of_int n))"

text \<open>
  \<^verbatim>\<open>int((dist // minisector_length) + 1)\<close>: float floor division, then plus one.
  Floor division by a zero length raises ZeroDivisionError. The floor is that of the exact
  quotient here; the floor division of doubles can give the neighbouring integer when the
  length has been rounded.
\<close>

definition minisector_of :: "rat \<Rightarrow> rat \<Rightarrow> error + int" where
  "minisector_of minisector_length d =
     (if minisector_length = 0 then Inl ZeroDivisionError
      else Inr (\<lfloor>d / minisector_length\<rfloor> + 1))"

text \<open>\<^verbatim>\<open>apply\<close> runs the lambda on the rows in order; the first exception ends it.\<close>

fun assign_minisector :: "rat \<Rightarrow> sample list \<Rightarrow> error + sample list" where
  "assign_minisector minisector_length [] = Inr []"
| "assign_minisector minisector_length (r # rs) =
     (case minisector_of minisector_length (Distance r) of
        Inl e \<Rightarrow> Inl e
      | Inr m \<Rightarrow>
          (case assign_minisector minisector_length rs of
             Inl e \<Rightarrow> Inl e
           | Inr rs' \<Rightarrow> Inr (r\<lparr>Minisector := Some m\<rparr> # rs')))"

text \<open>
  \<^verbatim>\<open>groupby(["Minisector", "Driver"])["Speed"].mean().reset_index()\<close>: one row per
  key that occurs, in ascending order of the keys (\<^verbatim>\<open>groupby\<close> sorts them), with the
  arithmetic mean of the speeds of the rows that have the key. A row with a missing key
  belongs to no group.
\<close>

definition group_key :: "sample \<Rightarrow> (int \<times> string) option" where
  "group_key r =
     (case Minisector r of
        None \<Rightarrow> None
      | Some m \<Rightarrow> (case Driver r of None \<Rightarrow> None | Some d \<Rightarrow> Some (m, d)))"

definition mean :: "rat list \<Rightarrow> rat" where
  "mean vs = sum_list vs / of_nat (length vs)"

definition mean_speed :: "sample list \<Rightarrow> int \<times> string \<Rightarrow> rat" where
  "mean_speed rows k = mean (map Speed (filter (\<lambda>r. group_key r = Some k) rows))"

definition groups :: "sample list \<Rightarrow> (int \<times> string) list" where
  "groups rows = sort (remdups (List.map_filter group_key rows))"

definition average_speed :: "sample list \<Rightarrow> (int \<times> string \<times> rat) list" where
  "average_speed rows = map (\<lambda>k. (fst k, snd k, mean_speed rows k)) (groups rows)"

text \<open>
  \<^verbatim>\<open>idxmax\<close> of one group: the first row of the group whose speed is maximal. The scan
  replaces the best row so far only by a strictly faster one.
\<close>

fun idxmax :: "(int \<times> string \<times> rat) \<Rightarrow> (int \<times> string \<times> rat) list \<Rightarrow> (int \<times> string \<times> rat)" where
  "idxmax best [] = best"
| "idxmax best (e # es) =
     idxmax (if snd (snd best) < snd (snd e) then e else best) es"

text \<open>
  \<^verbatim>\<open>average_speed.loc[average_speed.groupby(["Minisector"])["Speed"].idxmax()]\<close>,
  reduced to the columns \<^verbatim>\<open>Minisector\<close> and \<^verbatim>\<open>Fastest_driver\<close>: one row per
  minisector, in ascending order.
\<close>

definition fastest_driver :: "(int \<times> string \<times> rat) list \<Rightarrow> (int \<times> string) list" where
  "fastest_driver avg =
     concat (map (\<lambda>m. case filter (\<lambda>e. fst e = m) avg of
                         [] \<Rightarrow> []
                       | e # es \<Rightarrow> [(m, fst (snd (idxmax e es)))])
                 (sort (remdups (map fst avg))))"

text \<open>
  \<^verbatim>\<open>telemetry.merge(fastest_driver, on=["Minisector"])\<close>: the inner join, each row of
  the left frame paired with the rows of the right frame that have its minisector.
\<close>

definition merge_on_minisector :: "sample list \<Rightarrow> (int \<times> string) list \<Rightarrow> sample list" where
  "merge_on_minisector rows fd =
     concat (map (\<lambda>r. map (\<lambda>mw. r\<lparr>Fastest_driver := Some (snd mw)\<rparr>)
                        (filter (\<lambda>mw. Minisector r = Some (fst mw)) fd))
                 rows)"

text \<open>
  \<^verbatim>\<open>sort_values(by=["Distance"])\<close>. Rows of equal distance keep their order here;
  pandas' default quicksort leaves their order open.
\<close>

definition sort_values :: "sample list \<Rightarrow> sample list" where
  "sort_values rows = sort_key Distance rows"

text \<open>\<^verbatim>\<open>telemetry.loc[telemetry["Fastest_driver"] == d, "Fastest_driver_int"] = v\<close>\<close>

definition set_fastest_driver_int :: "string \<Rightarrow> rat \<Rightarrow> sample list \<Rightarrow> sample list" where
  "set_fastest_driver_int d v rows =
     map (\<lambda>r. if Fastest_driver r = Some d then r\<lparr>Fastest_driver_int := Some v\<rparr> else r) rows"

section \<open>The Geometry Builder (the end of \<^verbatim>\<open>process_minisectors\<close>)\<close>

text \<open>
  \<^verbatim>\<open>points\<close> is the column of \<open>(x, y)\<close> pairs; \<^verbatim>\<open>segments\<close> joins
  \<^verbatim>\<open>points[:-1]\<close> and \<^verbatim>\<open>points[1:]\<close> position by position.
\<close>

definition points :: "sample list \<Rightarrow> (rat \<times> rat) list" where
  "points rows = map (\<lambda>r. (X r, Y r)) rows"

definition segments :: "sample list \<Rightarrow> segment list" where
  "segments rows = zip (butlast (points rows)) (tl (points rows))"

definition fastest_driver_array :: "sample list \<Rightarrow> rat option list" where
  "fastest_driver_array rows = map Fastest_driver_int rows"

section \<open>\<^verbatim>\<open>process_minisectors\<close>\<close>

text \<open>
  The steps above in the order of the method, the first exception ending the run. The
  method ends by handing the segments, the array and a colour map of the two team colours
  to matplotlib; of that only the segments and the array are kept here.
\<close>

definition process_minisectors :: "int \<Rightarrow> QualifyingComparer \<Rightarrow> error + QualifyingComparer" where
  "process_minisectors num_minisectors s =
     (case merge_telemetries s of
        Inl e \<Rightarrow> Inl e
      | Inr s1 \<Rightarrow>
     (case telemetry s1 of
        None \<Rightarrow> Inl TypeError
      | Some tel \<Rightarrow>
     (case py_max (map Distance tel) of
        Inl e \<Rightarrow> Inl e
      | Inr total_distance \<Rightarrow>
     (case true_div total_distance num_minisectors of
        Inl e \<Rightarrow> Inl e
      | Inr minisector_length \<Rightarrow>
     (case assign_minisector minisector_length tel of
        Inl e \<Rightarrow> Inl e
      | Inr tel1 \<Rightarrow>
          (let fd = fastest_driver (average_speed tel1);
               tel2 = sort_values (merge_on_minisector tel1 fd);
               tel3 = set_fastest_driver_int (driver_2 s1) 2
                        (set_fastest_driver_int (driver_1 s1) 1 tel2)
           in Inr (s1\<lparr>telemetry := Some tel3,
                      line_collection :=
                        Some (segments tel3, fastest_driver_array tel3)\<rparr>)))))))"

section \<open>Notions used in the statements\<close>

text \<open>
  The drivers that have a group in minisector \<open>m\<close>, in the order in which the grouped frame
  lists them.
\<close>

definition drivers_in :: "sample list \<Rightarrow> int \<Rightarrow> string list" where
  "drivers_in rows m = map snd (filter (\<lambda>k. fst k = m) (groups rows))"

section \<open>Concrete inputs\<close>

text \<open>
  A row as the telemetry source returns it, without the derived columns, and an object
  whose session has been loaded with two laps.
\<close>

definition raw_sample :: "rat \<Rightarrow> rat \<Rightarrow> rat \<Rightarrow> rat \<Rightarrow> sample" where
  "raw_sample d v x y =
     \<lparr>Distance = d, Speed = v, X = x, Y = y, Driver = None, Minisector = None,
      Fastest_driver = None, Fastest_driver_int = None\<rparr>"

definition loaded ::
  "string \<Rightarrow> string \<Rightarrow> sample list \<Rightarrow> sample list \<Rightarrow> QualifyingComparer" where
  "loaded d1 d2 t1 t2 =
     \<lparr>driver_1 = d1, driver_2 = d2, laps_driver_1 = None, laps_driver_2 = None,
      telemetry_driver_1 = Some t1, telemetry_driver_2 = Some t2,
      team_color_1 = None, team_color_2 = None, telemetry = None, line_collection = None\<rparr>"

text \<open>
  The scenario of the specification: laps with distances 0, 100, 200, 300, 400 and
  0, 120, 240, 360, 480.
\<close>

definition lap_LEC :: "sample list" where
  "lap_LEC = [raw_sample 0 100 0 0, raw_sample 100 200 1 0, raw_sample 200 300 2 0,
              raw_sample 300 310 3 0, raw_sample 400 320 4 0]"

definition lap_VER :: "sample list" where
  "lap_VER = [raw_sample 0 110 0 1, raw_sample 120 210 1 1, raw_sample 240 290 2 1,
              raw_sample 360 300 3 1, raw_sample 480 330 4 1]"

definition scenario :: QualifyingComparer where
  "scenario = loaded ''LEC'' ''VER'' lap_LEC lap_VER"

text \<open>An object whose first lap has no sample.\<close>

definition one_empty_lap :: QualifyingComparer where
  "one_empty_lap = loaded ''LEC'' ''VER'' [] [raw_sample 0 110 0 1, raw_sample 120 210 1 1]"

text \<open>An object with one sample in each lap, and what the Merger makes of it.\<close>

definition two_samples :: QualifyingComparer where
  "two_samples = loaded ''LEC'' ''VER'' [raw_sample 0 100 0 0] [raw_sample 0 110 0 1]"

definition two_samples_merged :: QualifyingComparer where
  "two_samples_merged =
     two_samples
       \<lparr>telemetry_driver_1 := Some [(raw_sample 0 100 0 0)\<lparr>Driver := Some ''LEC''\<rparr>],
        telemetry_driver_2 := Some [(raw_sample 0 110 0 1)\<lparr>Driver := Some ''VER''\<rparr>],
        telemetry := Some [(raw_sample 0 100 0 0)\<lparr>Driver := Some ''LEC''\<rparr>,
                           (raw_sample 0 110 0 1)\<lparr>Driver := Some ''VER''\<rparr>]\<rparr>"

text \<open>Three joined rows, as the Geometry Builder receives them.\<close>

definition three_rows :: "sample list" where
  "three_rows =
     [(raw_sample 0 100 0 0)\<lparr>Fastest_driver_int := Some 1\<rparr>,
      (raw_sample 10 110 3 4)\<lparr>Fastest_driver_int := Some 2\<rparr>,
      (raw_sample 20 120 6 8)\<lparr>Fastest_driver_int := Some 1\<rparr>]"

text \<open>
  Rows with their driver and minisector: in minisector 1 the mean speeds are 150 and 160,
  in minisector 2 they are 300 and 290.
\<close>

definition tagged_rows :: "sample list" where
  "tagged_rows =
     [(raw_sample 0 100 0 0)\<lparr>Driver := Some ''LEC'', Minisector := Some 1\<rparr>,
      (raw_sample 0 110 0 1)\<lparr>Driver := Some ''VER'', Minisector := Some 1\<rparr>,
      (raw_sample 100 200 1 0)\<lparr>Driver := Some ''LEC'', Minisector := Some 1\<rparr>,
      (raw_sample 120 210 1 1)\<lparr>Driver := Some ''VER'', Minisector := Some 1\<rparr>,
      (raw_sample 300 300 3 0)\<lparr>Driver := Some ''LEC'', Minisector := Some 2\<rparr>,
      (raw_sample 360 290 3 1)\<lparr>Driver := Some ''VER'', Minisector := Some 2\<rparr>]"

text \<open>
  Rows of one minisector in which both drivers have the mean speed 150; the first row is
  of the driver whose code is the greater one.
\<close>

definition tied_rows :: "sample list" where
  "tied_rows =
     [(raw_sample 0 150 0 1)\<lparr>Driver := Some ''VER'', Minisector := Some 1\<rparr>,
      (raw_sample 0 100 0 0)\<lparr>Driver := Some ''LEC'', Minisector := Some 1\<rparr>,
      (raw_sample 100 200 1 0)\<lparr>Driver := Some ''LEC'', Minisector := Some 1\<rparr>]"





section \<open>The Merger\<close>

lemma merge_telemetries_loaded:
  "telemetry_driver_1 s = Some t1 \<Longrightarrow> telemetry_driver_2 s = Some t2 \<Longrightarrow>
   merge_telemetries s =
     Inr (s\<lparr>telemetry_driver_1 := Some (set_driver (driver_1 s) t1),
            telemetry_driver_2 := Some (set_driver (driver_2 s) t2),
            telemetry := Some (set_driver (driver_1 s) t1 @ set_driver (driver_2 s) t2)\<rparr>)"
  by (simp add: merge_telemetries_def Let_def)

lemma merge_telemetries_Inr:
  "merge_telemetries s = Inr s' \<Longrightarrow>
   \<exists>t1 t2. telemetry_driver_1 s = Some t1 \<and> telemetry_driver_2 s = Some t2"
  by (auto simp: merge_telemetries_def split: option.splits)

lemma set_driver_idem: "set_driver d (set_driver d t) = set_driver d t"
  by (simp add: set_driver_def)

text \<open>
  C3. For two laps \<open>t1\<close> and \<open>t2\<close> the Merger succeeds and the merged frame is the rows
  of \<open>t1\<close>, each with the first driver's code in its \<^verbatim>\<open>Driver\<close> column, followed by the
  rows of \<open>t2\<close>, each with the second driver's code: its length is the sum of the two
  lengths, and row \<open>i\<close> of either lap is found at its place, changed in nothing but the tag.
\<close>

theorem merge_telemetries_concat:
  assumes "telemetry_driver_1 s = Some t1" and "telemetry_driver_2 s = Some t2"
  shows "\<exists>s' m. merge_telemetries s = Inr s' \<and> telemetry s' = Some m \<and>
           m = map (\<lambda>r. r\<lparr>Driver := Some (driver_1 s)\<rparr>) t1 @
               map (\<lambda>r. r\<lparr>Driver := Some (driver_2 s)\<rparr>) t2 \<and>
           length m = length t1 + length t2 \<and>
           (\<forall>i<length t1. m ! i = (t1 ! i)\<lparr>Driver := Some (driver_1 s)\<rparr>) \<and>
           (\<forall>i<length t2. m ! (length t1 + i) = (t2 ! i)\<lparr>Driver := Some (driver_2 s)\<rparr>)"
  using assms
  by (simp add: merge_telemetries_loaded set_driver_def nth_append)

theorem merge_telemetries_concat_witness:
  "telemetry_driver_1 scenario = Some lap_LEC \<and> telemetry_driver_2 scenario = Some lap_VER \<and>
   (\<exists>s' m. merge_telemetries scenario = Inr s' \<and> telemetry s' = Some m \<and> length m = 10 \<and>
      map Distance m = [0, 100, 200, 300, 400, 0, 120, 240, 360, 480] \<and>
      map Driver m = [Some ''LEC'', Some ''LEC'', Some ''LEC'', Some ''LEC'', Some ''LEC'',
                      Some ''VER'', Some ''VER'', Some ''VER'', Some ''VER'', Some ''VER''])"
proof -
  have h1: "telemetry_driver_1 scenario = Some lap_LEC"
    by (simp add: scenario_def loaded_def)
  have h2: "telemetry_driver_2 scenario = Some lap_VER"
    by (simp add: scenario_def loaded_def)
  from merge_telemetries_concat [OF h1 h2] obtain s' m where
    a: "merge_telemetries scenario = Inr s'" "telemetry s' = Some m"
       "m = map (\<lambda>r. r\<lparr>Driver := Some (driver_1 scenario)\<rparr>) lap_LEC @
            map (\<lambda>r. r\<lparr>Driver := Some (driver_2 scenario)\<rparr>) lap_VER"
    by blast
  have "length m = 10"
    using a(3) by (simp add: lap_LEC_def lap_VER_def)
  moreover have "map Distance m = [0, 100, 200, 300, 400, 0, 120, 240, 360, 480]"
    using a(3) by (simp add: lap_LEC_def lap_VER_def raw_sample_def)
  moreover have "map Driver m =
      [Some ''LEC'', Some ''LEC'', Some ''LEC'', Some ''LEC'', Some ''LEC'',
       Some ''VER'', Some ''VER'', Some ''VER'', Some ''VER'', Some ''VER'']"
    using a(3) by (simp add: lap_LEC_def lap_VER_def scenario_def loaded_def)
  ultimately have "merge_telemetries scenario = Inr s' \<and> telemetry s' = Some m \<and>
      length m = 10 \<and>
      map Distance m = [0, 100, 200, 300, 400, 0, 120, 240, 360, 480] \<and>
      map Driver m = [Some ''LEC'', Some ''LEC'', Some ''LEC'', Some ''LEC'', Some ''LEC'',
                      Some ''VER'', Some ''VER'', Some ''VER'', Some ''VER'', Some ''VER'']"
    using a(1,2) by simp
  then have "\<exists>s' m. merge_telemetries scenario = Inr s' \<and> telemetry s' = Some m \<and>
      length m = 10 \<and>
      map Distance m = [0, 100, 200, 300, 400, 0, 120, 240, 360, 480] \<and>
      map Driver m = [Some ''LEC'', Some ''LEC'', Some ''LEC'', Some ''LEC'', Some ''LEC'',
                      Some ''VER'', Some ''VER'', Some ''VER'', Some ''VER'', Some ''VER'']"
    by (intro exI)
  with h1 h2 show ?thesis by (intro conjI)
qed

text \<open>
  C4, as the code has it. The Merger does not look at the number of rows: with an empty
  lap it raises nothing and returns the tagged rows of the other lap (no row at all when
  both laps are empty).
\<close>

theorem merge_telemetries_empty_lap:
  assumes "telemetry_driver_1 s = Some t1" and "telemetry_driver_2 s = Some t2"
    and "t1 = [] \<or> t2 = []"
  shows "\<exists>s'. merge_telemetries s = Inr s' \<and>
           telemetry s' =
             Some (if t1 = [] then set_driver (driver_2 s) t2 else set_driver (driver_1 s) t1)"
  using assms by (auto simp: merge_telemetries_loaded set_driver_def)

theorem merge_telemetries_empty_lap_witness:
  "telemetry_driver_1 one_empty_lap = Some [] \<and>
   telemetry_driver_2 one_empty_lap = Some [raw_sample 0 110 0 1, raw_sample 120 210 1 1] \<and>
   (\<exists>s'. merge_telemetries one_empty_lap = Inr s' \<and>
      telemetry s' = Some [(raw_sample 0 110 0 1)\<lparr>Driver := Some ''VER''\<rparr>,
                           (raw_sample 120 210 1 1)\<lparr>Driver := Some ''VER''\<rparr>])"
proof -
  have h1: "telemetry_driver_1 one_empty_lap = Some []"
    by (simp add: one_empty_lap_def loaded_def)
  have h2: "telemetry_driver_2 one_empty_lap =
      Some [raw_sample 0 110 0 1, raw_sample 120 210 1 1]"
    by (simp add: one_empty_lap_def loaded_def)
  have h3: "([]::sample list) = [] \<or> [raw_sample 0 110 0 1, raw_sample 120 210 1 1] = []"
    by simp
  have d: "driver_2 one_empty_lap = ''VER''"
    by (simp add: one_empty_lap_def loaded_def)
  show ?thesis
    using merge_telemetries_empty_lap [OF h1 h2 h3] h1 h2
    by (simp add: set_driver_def d)
qed

text \<open>
  The claim C4 fails on the code: the first lap is empty, and the Merger returns a merged
  frame instead of an error.
\<close>

theorem merge_telemetries_empty_lap_counterexample:
  "telemetry_driver_1 one_empty_lap = Some [] \<and>
   merge_telemetries one_empty_lap =
     Inr (one_empty_lap
            \<lparr>telemetry_driver_2 := Some [(raw_sample 0 110 0 1)\<lparr>Driver := Some ''VER''\<rparr>,
                                         (raw_sample 120 210 1 1)\<lparr>Driver := Some ''VER''\<rparr>],
             telemetry := Some [(raw_sample 0 110 0 1)\<lparr>Driver := Some ''VER''\<rparr>,
                                (raw_sample 120 210 1 1)\<lparr>Driver := Some ''VER''\<rparr>]\<rparr>)"
  by (simp add: merge_telemetries_def Let_def one_empty_lap_def loaded_def set_driver_def)

text \<open>
  C10, as the code has it. The tag is written into the two fetched frames themselves:
  after the Merger each of them holds its rows in the same order, every row equal to the
  fetched one in all columns but \<^verbatim>\<open>Driver\<close>, which now holds the driver's code. The
  merged frame is a separate attribute, and no other attribute changes.
\<close>

theorem merge_telemetries_tags_sources:
  assumes "merge_telemetries s = Inr s'"
  shows "\<exists>t1 t2 t1' t2'.
           telemetry_driver_1 s = Some t1 \<and> telemetry_driver_2 s = Some t2 \<and>
           telemetry_driver_1 s' = Some t1' \<and> telemetry_driver_2 s' = Some t2' \<and>
           length t1' = length t1 \<and> length t2' = length t2 \<and>
           (\<forall>i<length t1. t1' ! i = (t1 ! i)\<lparr>Driver := Some (driver_1 s)\<rparr>) \<and>
           (\<forall>i<length t2. t2' ! i = (t2 ! i)\<lparr>Driver := Some (driver_2 s)\<rparr>) \<and>
           s' = s\<lparr>telemetry_driver_1 := Some t1', telemetry_driver_2 := Some t2',
                  telemetry := Some (t1' @ t2')\<rparr>"
proof -
  from merge_telemetries_Inr [OF assms] obtain t1 t2 where
    t: "telemetry_driver_1 s = Some t1" "telemetry_driver_2 s = Some t2"
    by blast
  have "s' = s\<lparr>telemetry_driver_1 := Some (set_driver (driver_1 s) t1),
               telemetry_driver_2 := Some (set_driver (driver_2 s) t2),
               telemetry := Some (set_driver (driver_1 s) t1 @ set_driver (driver_2 s) t2)\<rparr>"
    using assms merge_telemetries_loaded [OF t] by simp
  with t show ?thesis
    by (simp add: set_driver_def)
qed

theorem merge_telemetries_tags_sources_witness:
  "merge_telemetries two_samples = Inr two_samples_merged \<and>
   (\<exists>t1 t1'. telemetry_driver_1 two_samples = Some t1 \<and>
      telemetry_driver_1 two_samples_merged = Some t1' \<and> length t1' = length t1 \<and>
      (\<forall>i<length t1. t1' ! i = (t1 ! i)\<lparr>Driver := Some ''LEC''\<rparr>))"
proof -
  have h: "merge_telemetries two_samples = Inr two_samples_merged"
    by (simp add: merge_telemetries_def Let_def two_samples_merged_def two_samples_def
        loaded_def set_driver_def)
  have d: "driver_1 two_samples = ''LEC''"
    by (simp add: two_samples_def loaded_def)
  from merge_telemetries_tags_sources [OF h] d have
    "\<exists>t1 t1'. telemetry_driver_1 two_samples = Some t1 \<and>
      telemetry_driver_1 two_samples_merged = Some t1' \<and> length t1' = length t1 \<and>
      (\<forall>i<length t1. t1' ! i = (t1 ! i)\<lparr>Driver := Some ''LEC''\<rparr>)"
    by auto
  with h show ?thesis by (intro conjI)
qed

text \<open>
  The claim C10 fails on the code: the frame of the first driver is not the fetched one
  any more once the Merger has run; its row has a \<^verbatim>\<open>Driver\<close> cell.
\<close>

theorem merge_telemetries_mutates_counterexample:
  "merge_telemetries two_samples = Inr two_samples_merged \<and>
   telemetry_driver_1 two_samples = Some [raw_sample 0 100 0 0] \<and>
   telemetry_driver_1 two_samples_merged =
     Some [(raw_sample 0 100 0 0)\<lparr>Driver := Some ''LEC''\<rparr>] \<and>
   telemetry_driver_1 two_samples_merged \<noteq> telemetry_driver_1 two_samples"
  by (simp add: merge_telemetries_def Let_def two_samples_merged_def two_samples_def
      loaded_def set_driver_def raw_sample_def)

section \<open>The Team Color Resolver\<close>




section \<open>Runs of \<^verbatim>\<open>process_minisectors\<close>\<close>

lemma map_Distance_set_driver: "map Distance (set_driver d t) = map Distance t"
  by (simp add: set_driver_def)

lemma map_Distance_set_fastest_driver_int:
  "map Distance (set_fastest_driver_int d v rows) = map Distance rows"
  by (simp add: set_fastest_driver_int_def)

text \<open>What a successful run has computed.\<close>

lemma process_minisectors_Inr:
  assumes "process_minisectors n s = Inr s'"
  shows "\<exists>t1 t2 total_distance minisector_length tel1 tel3.
           telemetry_driver_1 s = Some t1 \<and> telemetry_driver_2 s = Some t2 \<and>
           py_max (map Distance (t1 @ t2)) = Inr total_distance \<and>
           true_div total_distance n = Inr minisector_length \<and>
           assign_minisector minisector_length
             (set_driver (driver_1 s) t1 @ set_driver (driver_2 s) t2) = Inr tel1 \<and>
           tel3 = set_fastest_driver_int (driver_2 s) 2
                    (set_fastest_driver_int (driver_1 s) 1
                       (sort_values (merge_on_minisector tel1
                          (fastest_driver (average_speed tel1))))) \<and>
           s' = s\<lparr>telemetry_driver_1 := Some (set_driver (driver_1 s) t1),
                  telemetry_driver_2 := Some (set_driver (driver_2 s) t2),
                  telemetry := Some tel3,
                  line_collection := Some (segments tel3, fastest_driver_array tel3)\<rparr>"
proof -
  from assms obtain s1 where m: "merge_telemetries s = Inr s1"
    by (auto simp: process_minisectors_def split: sum.splits)
  from merge_telemetries_Inr [OF m] obtain t1 t2 where
    t: "telemetry_driver_1 s = Some t1" "telemetry_driver_2 s = Some t2"
    by blast
  have s1: "s1 = s\<lparr>telemetry_driver_1 := Some (set_driver (driver_1 s) t1),
               telemetry_driver_2 := Some (set_driver (driver_2 s) t2),
               telemetry := Some (set_driver (driver_1 s) t1 @ set_driver (driver_2 s) t2)\<rparr>"
    using m merge_telemetries_loaded [OF t] by simp
  show ?thesis
    using assms t
    by (auto simp: process_minisectors_def m s1 Let_def map_Distance_set_driver
        split: sum.splits)
qed

text \<open>The scenario runs through with two minisectors.\<close>

lemma scenario_run:
  "process_minisectors 2 scenario = Inr (projr (process_minisectors 2 scenario))"
proof -
  have "\<not> isl (process_minisectors 2 scenario)" by code_simp
  then show ?thesis by simp
qed

section \<open>The Geometry Builder\<close>

lemma length_segments: "length (segments rows) = length rows - 1"
  by (simp add: segments_def points_def)

lemma nth_segments:
  assumes "Suc i < length rows"
  shows "segments rows ! i =
           ((X (rows ! i), Y (rows ! i)), (X (rows ! Suc i), Y (rows ! Suc i)))"
  using assms by (simp add: segments_def points_def nth_butlast nth_tl)

text \<open>
  C6. For \<open>n\<close> rows the Geometry Builder makes \<open>n - 1\<close> segments (none for no row or one
  row). Segment \<open>i\<close> goes from the point of row \<open>i\<close> to the point of row \<open>i + 1\<close>, and the
  entry \<open>i\<close> of the array that colours the segments is the winning-driver code of row \<open>i\<close>,
  the start of the segment. A successful run of \<^verbatim>\<open>process_minisectors\<close> stores the
  segments and the array of its final, sorted frame.
\<close>

theorem segments_consecutive:
  "length (segments rows) = length rows - 1 \<and>
   (\<forall>i. Suc i < length rows \<longrightarrow>
      segments rows ! i =
        ((X (rows ! i), Y (rows ! i)), (X (rows ! Suc i), Y (rows ! Suc i))) \<and>
      fastest_driver_array rows ! i = Fastest_driver_int (rows ! i)) \<and>
   segments [] = [] \<and> segments [r] = [] \<and>
   (process_minisectors n s = Inr s' \<longrightarrow>
      (\<exists>tel. telemetry s' = Some tel \<and>
         line_collection s' = Some (segments tel, fastest_driver_array tel)))"
proof (intro conjI allI impI)
  show "length (segments rows) = length rows - 1" by (rule length_segments)
next
  fix i assume "Suc i < length rows"
  then show "segments rows ! i =
        ((X (rows ! i), Y (rows ! i)), (X (rows ! Suc i), Y (rows ! Suc i)))"
    by (rule nth_segments)
next
  fix i assume "Suc i < length rows"
  then show "fastest_driver_array rows ! i = Fastest_driver_int (rows ! i)"
    by (simp add: fastest_driver_array_def)
next
  show "segments [] = []" by (simp add: segments_def points_def)
next
  show "segments [r] = []" by (simp add: segments_def points_def)
next
  assume "process_minisectors n s = Inr s'"
  from process_minisectors_Inr [OF this] show
    "\<exists>tel. telemetry s' = Some tel \<and>
       line_collection s' = Some (segments tel, fastest_driver_array tel)"
    by auto
qed

theorem segments_consecutive_witness:
  "length (segments three_rows) = 2 \<and>
   segments three_rows ! 0 = ((0, 0), (3, 4)) \<and>
   segments three_rows ! 1 = ((3, 4), (6, 8)) \<and>
   fastest_driver_array three_rows ! 0 = Some 1 \<and>
   fastest_driver_array three_rows ! 1 = Some 2 \<and>
   process_minisectors 2 scenario = Inr (projr (process_minisectors 2 scenario)) \<and>
   (\<exists>tel. telemetry (projr (process_minisectors 2 scenario)) = Some tel \<and>
      line_collection (projr (process_minisectors 2 scenario)) =
        Some (segments tel, fastest_driver_array tel))"
proof -
  note a = segments_consecutive [of three_rows "raw_sample 0 0 0 0" 2 scenario
      "projr (process_minisectors 2 scenario)"]
  have l: "length three_rows = 3" by (simp add: three_rows_def)
  from a l have "length (segments three_rows) = 2" by simp
  moreover from a l have "segments three_rows ! 0 =
      ((X (three_rows ! 0), Y (three_rows ! 0)), (X (three_rows ! Suc 0), Y (three_rows ! Suc 0)))"
    by simp
  then have "segments three_rows ! 0 = ((0, 0), (3, 4))"
    by (simp add: three_rows_def raw_sample_def)
  moreover from a l have "segments three_rows ! 1 =
      ((X (three_rows ! 1), Y (three_rows ! 1)), (X (three_rows ! Suc 1), Y (three_rows ! Suc 1)))"
    by simp
  then have "segments three_rows ! 1 = ((3, 4), (6, 8))"
    by (simp add: three_rows_def raw_sample_def)
  moreover from a l have "fastest_driver_array three_rows ! 0 = Fastest_driver_int (three_rows ! 0)"
    by simp
  then have "fastest_driver_array three_rows ! 0 = Some 1"
    by (simp add: three_rows_def)
  moreover from a l have "fastest_driver_array three_rows ! 1 = Fastest_driver_int (three_rows ! 1)"
    by simp
  then have "fastest_driver_array three_rows ! 1 = Some 2"
    by (simp add: three_rows_def)
  moreover note scenario_run
  moreover from a scenario_run have
    "\<exists>tel. telemetry (projr (process_minisectors 2 scenario)) = Some tel \<and>
      line_collection (projr (process_minisectors 2 scenario)) =
        Some (segments tel, fastest_driver_array tel)"
    by blast
  ultimately show ?thesis by (intro conjI)
qed

section \<open>The Segmenter\<close>

text \<open>
  C7. In the frame that a successful run leaves in \<^verbatim>\<open>__telemetry\<close>, and from which
  the segments are built, the distances ascend; the sort gives an ascending frame whatever
  the order of the rows that the join hands to it.
\<close>

theorem process_minisectors_sorted:
  "(process_minisectors n s = Inr s' \<longrightarrow>
      (\<exists>tel. telemetry s' = Some tel \<and> sorted (map Distance tel))) \<and>
   sorted (map Distance (sort_values rows))"
proof (intro conjI impI)
  assume "process_minisectors n s = Inr s'"
  from process_minisectors_Inr [OF this] obtain tel1 tel3 where
    a: "tel3 = set_fastest_driver_int (driver_2 s) 2
                    (set_fastest_driver_int (driver_1 s) 1
                       (sort_values (merge_on_minisector tel1
                          (fastest_driver (average_speed tel1)))))"
       "telemetry s' = Some tel3"
    by auto
  have "sorted (map Distance tel3)"
    unfolding a(1) by (simp add: map_Distance_set_fastest_driver_int sort_values_def)
  with a(2) show "\<exists>tel. telemetry s' = Some tel \<and> sorted (map Distance tel)" by simp
next
  show "sorted (map Distance (sort_values rows))" by (simp add: sort_values_def)
qed

theorem process_minisectors_sorted_witness:
  "process_minisectors 2 scenario = Inr (projr (process_minisectors 2 scenario)) \<and>
   (\<exists>tel. telemetry (projr (process_minisectors 2 scenario)) = Some tel \<and>
      sorted (map Distance tel)) \<and>
   map_option (map Distance) (telemetry (projr (process_minisectors 2 scenario))) =
     Some [0, 0, 100, 120, 200, 240, 300, 360, 400, 480]"
proof -
  have "map_option (map Distance) (telemetry (projr (process_minisectors 2 scenario))) =
     Some [0, 0, 100, 120, 200, 240, 300, 360, 400, 480]"
    by code_simp
  moreover from process_minisectors_sorted
      [of 2 scenario "projr (process_minisectors 2 scenario)" "[]"] scenario_run
  have "\<exists>tel. telemetry (projr (process_minisectors 2 scenario)) = Some tel \<and>
      sorted (map Distance tel)"
    by blast
  ultimately show ?thesis using scenario_run by (intro conjI)
qed

text \<open>
  C5, as the code has it. No run with zero minisectors returns: when both laps are loaded
  and have a row between them, the division of the total distance by zero raises
  ZeroDivisionError, before any minisector is assigned or any speed averaged (without the
  laps the error is TypeError, without a row ValueError). Nothing is said of a negative
  number of minisectors, which the code does not check.
\<close>

theorem process_minisectors_zero:
  "(\<exists>e. process_minisectors 0 s = Inl e) \<and>
   (telemetry_driver_1 s = Some t1 \<longrightarrow> telemetry_driver_2 s = Some t2 \<longrightarrow> t1 @ t2 \<noteq> [] \<longrightarrow>
      process_minisectors 0 s = Inl ZeroDivisionError)"
proof (intro conjI impI)
  show "\<exists>e. process_minisectors 0 s = Inl e"
    by (auto simp: process_minisectors_def true_div_def split: sum.splits option.splits)
next
  assume t: "telemetry_driver_1 s = Some t1" "telemetry_driver_2 s = Some t2"
    and ne: "t1 @ t2 \<noteq> []"
  from ne obtain d ds where "map Distance (t1 @ t2) = d # ds"
    by (cases "t1 @ t2") auto
  then show "process_minisectors 0 s = Inl ZeroDivisionError"
    using merge_telemetries_loaded [OF t]
    by (simp add: process_minisectors_def true_div_def map_Distance_set_driver)
qed

theorem process_minisectors_zero_witness:
  "telemetry_driver_1 scenario = Some lap_LEC \<and> telemetry_driver_2 scenario = Some lap_VER \<and>
   lap_LEC @ lap_VER \<noteq> [] \<and> process_minisectors 0 scenario = Inl ZeroDivisionError"
proof -
  have h1: "telemetry_driver_1 scenario = Some lap_LEC"
    by (simp add: scenario_def loaded_def)
  have h2: "telemetry_driver_2 scenario = Some lap_VER"
    by (simp add: scenario_def loaded_def)
  have h3: "lap_LEC @ lap_VER \<noteq> []"
    by (simp add: lap_LEC_def)
  have "process_minisectors 0 scenario = Inl ZeroDivisionError"
    by (rule process_minisectors_zero
        [of scenario lap_LEC lap_VER, THEN conjunct2, THEN mp, THEN mp, THEN mp, OF h1 h2 h3])
  with h1 h2 h3 show ?thesis by (intro conjI)
qed

text \<open>
  The claim C5 fails on the code: with minus one minisector the run of the scenario returns
  a result, with every row a minisector number.
\<close>

theorem process_minisectors_negative_counterexample:
  "\<not> isl (process_minisectors (- 1) scenario) \<and>
   map_option (map Minisector) (telemetry (projr (process_minisectors (- 1) scenario))) =
     Some [Some 1, Some 1, Some 0, Some 0, Some 0, Some 0, Some 0, Some 0, Some 0, Some 0]"
  by code_simp

text \<open>
  C1 on the code. The minisector number is the floor of the distance over the minisector
  length, plus one, and nothing clamps it. In the scenario of the specification (greatest
  distance 480, two minisectors of length 240, all of it exact in doubles) the row at
  distance 480 gets the number 3.
\<close>

theorem process_minisectors_scenario_overflow:
  "process_minisectors 2 scenario = Inr (projr (process_minisectors 2 scenario)) \<and>
   map_option (map Distance) (telemetry (projr (process_minisectors 2 scenario))) =
     Some [0, 0, 100, 120, 200, 240, 300, 360, 400, 480] \<and>
   map_option (map Minisector) (telemetry (projr (process_minisectors 2 scenario))) =
     Some [Some 1, Some 1, Some 1, Some 1, Some 1, Some 2, Some 2, Some 2, Some 2, Some 3]"
proof -
  have "map_option (map Distance) (telemetry (projr (process_minisectors 2 scenario))) =
     Some [0, 0, 100, 120, 200, 240, 300, 360, 400, 480]"
    by code_simp
  moreover have
    "map_option (map Minisector) (telemetry (projr (process_minisectors 2 scenario))) =
     Some [Some 1, Some 1, Some 1, Some 1, Some 1, Some 2, Some 2, Some 2, Some 2, Some 3]"
    by code_simp
  ultimately show ?thesis using scenario_run by (intro conjI)
qed

section \<open>The winner of a minisector\<close>

text \<open>The scan keeps a row of the group, a fastest one, and the first of the fastest.\<close>

lemma idxmax_mem: "idxmax best es \<in> set (best # es)"
  by (induction es arbitrary: best) auto

lemma idxmax_best_le: "snd (snd best) \<le> snd (snd (idxmax best es))"
proof (induction es arbitrary: best)
  case Nil
  show ?case by simp
next
  case (Cons e es)
  show ?case
  proof (cases "snd (snd best) < snd (snd e)")
    case True
    with Cons [of e] show ?thesis by simp
  next
    case False
    with Cons [of best] show ?thesis by simp
  qed
qed

lemma idxmax_ge: "x \<in> set (best # es) \<Longrightarrow> snd (snd x) \<le> snd (snd (idxmax best es))"
proof (induction es arbitrary: best)
  case Nil
  then show ?case by simp
next
  case (Cons e es)
  show ?case
  proof (cases "snd (snd best) < snd (snd e)")
    case True
    then have step: "idxmax best (e # es) = idxmax e es" by simp
    show ?thesis
    proof (cases "x = best")
      case True
      have "snd (snd e) \<le> snd (snd (idxmax e es))" by (rule idxmax_best_le)
      with \<open>snd (snd best) < snd (snd e)\<close> True show ?thesis
        unfolding step by simp
    next
      case False
      with Cons.prems have "x \<in> set (e # es)" by simp
      then show ?thesis unfolding step by (rule Cons.IH)
    qed
  next
    case False
    then have step: "idxmax best (e # es) = idxmax best es" by simp
    show ?thesis
    proof (cases "x = e")
      case True
      have "snd (snd best) \<le> snd (snd (idxmax best es))" by (rule idxmax_best_le)
      with \<open>\<not> snd (snd best) < snd (snd e)\<close> True show ?thesis
        unfolding step by simp
    next
      case False
      with Cons.prems have "x \<in> set (best # es)" by simp
      then show ?thesis unfolding step by (rule Cons.IH)
    qed
  qed
qed

lemma idxmax_first:
  "\<exists>pre post. best # es = pre @ idxmax best es # post \<and>
     (\<forall>x\<in>set pre. snd (snd x) < snd (snd (idxmax best es)))"
proof (induction es arbitrary: best)
  case Nil
  have "[best] = [] @ idxmax best [] # [] \<and>
      (\<forall>x\<in>set []. snd (snd x) < snd (snd (idxmax best [])))"
    by simp
  then show ?case by blast
next
  case (Cons e es)
  show ?case
  proof (cases "snd (snd best) < snd (snd e)")
    case True
    then have step: "idxmax best (e # es) = idxmax e es" by simp
    from Cons [of e] obtain pre post where
      p: "e # es = pre @ idxmax e es # post"
         "\<forall>x\<in>set pre. snd (snd x) < snd (snd (idxmax e es))"
      by blast
    have "snd (snd best) < snd (snd (idxmax e es))"
      using True idxmax_best_le [of e es] by simp
    with p have "best # e # es = (best # pre) @ idxmax e es # post \<and>
        (\<forall>x\<in>set (best # pre). snd (snd x) < snd (snd (idxmax e es)))"
      by simp
    then show ?thesis unfolding step by blast
  next
    case False
    then have step: "idxmax best (e # es) = idxmax best es" by simp
    from Cons [of best] obtain pre post where
      p: "best # es = pre @ idxmax best es # post"
         "\<forall>x\<in>set pre. snd (snd x) < snd (snd (idxmax best es))"
      by blast
    show ?thesis
    proof (cases pre)
      case Nil
      from p(1) have eq: "best # es = idxmax best es # post"
        unfolding Nil append_Nil .
      from eq have "best = idxmax best es"
        by (rule list.inject [THEN iffD1, THEN conjunct1])
      then have ib: "idxmax best es = best" by (rule sym)
      have "best # e # es = [] @ best # (e # es) \<and>
          (\<forall>x\<in>set []. snd (snd x) < snd (snd best))"
        by simp
      then show ?thesis unfolding step ib by blast
    next
      case (Cons b pre')
      from p(1) have eq: "best # es = b # (pre' @ idxmax best es # post)"
        unfolding Cons append_Cons .
      from eq have b: "best = b"
        by (rule list.inject [THEN iffD1, THEN conjunct1])
      from eq have es: "es = pre' @ idxmax best es # post"
        by (rule list.inject [THEN iffD1, THEN conjunct2])
      from p(2) have "snd (snd b) < snd (snd (idxmax best es))"
        unfolding Cons by simp
      then have lt: "snd (snd best) < snd (snd (idxmax best es))"
        unfolding b .
      with False have elt: "snd (snd e) < snd (snd (idxmax best es))" by simp
      from p(2) have pre': "\<forall>x\<in>set pre'. snd (snd x) < snd (snd (idxmax best es))"
        unfolding Cons by simp
      from es have "best # e # es = best # e # (pre' @ idxmax best es # post)"
        by (rule arg_cong [where f = "\<lambda>l. best # e # l"])
      then have 1: "best # e # es = (best # e # pre') @ idxmax best es # post"
        by (simp only: append_Cons)
      from lt elt pre' have 2:
        "\<forall>x\<in>set (best # e # pre'). snd (snd x) < snd (snd (idxmax best es))"
        by simp
      from 1 2 show ?thesis unfolding step by blast
    qed
  qed
qed


lemma fastest_driver_iff:
  "(m, w) \<in> set (fastest_driver avg) \<longleftrightarrow>
   (\<exists>e es. filter (\<lambda>x. fst x = m) avg = e # es \<and> w = fst (snd (idxmax e es)))"
proof
  assume "(m, w) \<in> set (fastest_driver avg)"
  then obtain m' where
    in': "(m, w) \<in> set (case filter (\<lambda>e. fst e = m') avg of
                         [] \<Rightarrow> []
                       | e # es \<Rightarrow> [(m', fst (snd (idxmax e es)))])"
    unfolding fastest_driver_def set_concat set_map by blast
  show "\<exists>e es. filter (\<lambda>x. fst x = m) avg = e # es \<and> w = fst (snd (idxmax e es))"
  proof (cases "filter (\<lambda>e. fst e = m') avg")
    case Nil
    with in' show ?thesis by simp
  next
    case (Cons e es)
    with in' have "m = m'" "w = fst (snd (idxmax e es))" by simp_all
    with Cons show ?thesis by blast
  qed
next
  assume "\<exists>e es. filter (\<lambda>x. fst x = m) avg = e # es \<and> w = fst (snd (idxmax e es))"
  then obtain e es where g: "filter (\<lambda>x. fst x = m) avg = e # es"
    and w: "w = fst (snd (idxmax e es))" by blast
  have "e \<in> set (filter (\<lambda>x. fst x = m) avg)" unfolding g by simp
  then have "e \<in> set avg" "fst e = m" by simp_all
  then have m: "m \<in> fst ` set avg" by blast
  have "(m, w) \<in> set (case filter (\<lambda>e. fst e = m) avg of
                         [] \<Rightarrow> []
                       | e # es \<Rightarrow> [(m, fst (snd (idxmax e es)))])"
    by (simp add: g w)
  moreover from m have "m \<in> set (sort (remdups (map fst avg)))" by simp
  ultimately show "(m, w) \<in> set (fastest_driver avg)"
    unfolding fastest_driver_def set_concat set_map by blast
qed

lemma set_map_filter_iff: "y \<in> set (List.map_filter f xs) \<longleftrightarrow> (\<exists>x\<in>set xs. f x = Some y)"
  by (induction xs) (auto split: option.splits)

lemma set_groups: "k \<in> set (groups rows) \<longleftrightarrow> (\<exists>r\<in>set rows. group_key r = Some k)"
  by (simp add: groups_def set_map_filter_iff)

lemma sorted_snd_same_fst:
  "sorted ks \<Longrightarrow> \<forall>k\<in>set ks. fst k = m \<Longrightarrow> sorted (map snd ks)"
proof (induction ks)
  case Nil
  show ?case by simp
next
  case (Cons k ks)
  have "snd k \<le> snd x" if "x \<in> set ks" for x
  proof -
    from that Cons.prems(1) have "k \<le> x" by simp
    moreover from that Cons.prems(2) have "fst k = fst x" by simp
    ultimately show ?thesis by (simp add: less_eq_prod_def)
  qed
  moreover from Cons have "sorted (map snd ks)" by simp
  ultimately show ?case by simp
qed

lemma set_drivers_in:
  "d \<in> set (drivers_in rows m) \<longleftrightarrow> (\<exists>r\<in>set rows. group_key r = Some (m, d))"
proof -
  have "d \<in> set (drivers_in rows m) \<longleftrightarrow>
      (\<exists>k\<in>set (groups rows). fst k = m \<and> snd k = d)"
    unfolding drivers_in_def set_map set_filter image_iff by blast
  also have "\<dots> \<longleftrightarrow> (m, d) \<in> set (groups rows)"
  proof
    assume "\<exists>k\<in>set (groups rows). fst k = m \<and> snd k = d"
    then obtain k where k: "k \<in> set (groups rows)" "fst k = m" "snd k = d" by blast
    have "k = (fst k, snd k)" by simp
    then have "k = (m, d)" unfolding k(2,3) .
    with k(1) show "(m, d) \<in> set (groups rows)" by simp
  next
    assume "(m, d) \<in> set (groups rows)"
    moreover have "fst (m, d) = m \<and> snd (m, d) = d" by simp
    ultimately show "\<exists>k\<in>set (groups rows). fst k = m \<and> snd k = d" by blast
  qed
  finally show ?thesis by (simp only: set_groups)
qed

lemma sorted_drivers_in: "sorted (drivers_in rows m)"
proof -
  have "sorted (map (\<lambda>k. k) (groups rows))"
    by (simp add: groups_def)
  then have "sorted (map (\<lambda>k. k) (filter (\<lambda>k. fst k = m) (groups rows)))"
    by (rule sorted_filter)
  then have "sorted (filter (\<lambda>k. fst k = m) (groups rows))" by simp
  moreover have "\<forall>k\<in>set (filter (\<lambda>k. fst k = m) (groups rows)). fst k = m"
    by simp
  ultimately show ?thesis unfolding drivers_in_def by (rule sorted_snd_same_fst)
qed

lemma average_speed_group:
  "filter (\<lambda>x. fst x = m) (average_speed rows) =
   map (\<lambda>d. (m, d, mean_speed rows (m, d))) (drivers_in rows m)"
proof -
  have "filter (\<lambda>x. fst x = m) (average_speed rows) =
      map (\<lambda>k. (fst k, snd k, mean_speed rows k)) (filter (\<lambda>k. fst k = m) (groups rows))"
    by (simp add: average_speed_def filter_map o_def)
  also have "\<dots> = map (\<lambda>k. (m, snd k, mean_speed rows (m, snd k)))
      (filter (\<lambda>k. fst k = m) (groups rows))"
  proof (rule map_cong [OF refl])
    fix k assume "k \<in> set (filter (\<lambda>k. fst k = m) (groups rows))"
    then have "fst k = m" by simp
    then have "k = (m, snd k)" by (cases k) simp
    then have "mean_speed rows k = mean_speed rows (m, snd k)" by simp
    with \<open>fst k = m\<close> show "(fst k, snd k, mean_speed rows k) =
        (m, snd k, mean_speed rows (m, snd k))" by simp
  qed
  also have "\<dots> = map (\<lambda>d. (m, d, mean_speed rows (m, d))) (drivers_in rows m)"
    by (simp add: drivers_in_def o_def)
  finally show ?thesis .
qed

lemma idxmax_map_first:
  fixes f :: "'a \<Rightarrow> int \<times> string \<times> rat"
  shows "\<exists>pre w post. d0 # ds = pre @ w # post \<and> idxmax (f d0) (map f ds) = f w \<and>
           (\<forall>x\<in>set pre. snd (snd (f x)) < snd (snd (f w)))"
proof -
  from idxmax_first [of "f d0" "map f ds"] obtain pre' post' where
    p: "f d0 # map f ds = pre' @ idxmax (f d0) (map f ds) # post'"
       "\<forall>x\<in>set pre'. snd (snd x) < snd (snd (idxmax (f d0) (map f ds)))"
    by (elim exE conjE) (rule that)
  have "map f (d0 # ds) = f d0 # map f ds" by simp
  from trans [OF this p(1)] have
    "\<exists>pre rest. d0 # ds = pre @ rest \<and> pre' = map f pre \<and>
       idxmax (f d0) (map f ds) # post' = map f rest"
    unfolding map_eq_append_conv .
  then obtain pre rest where
    a: "d0 # ds = pre @ rest" "pre' = map f pre"
       "idxmax (f d0) (map f ds) # post' = map f rest"
    by (elim exE conjE) (rule that)
  from a(3) [symmetric] have "\<exists>w post. rest = w # post \<and> f w = idxmax (f d0) (map f ds) \<and>
      map f post = post'"
    unfolding map_eq_Cons_conv .
  then obtain w post where
    b: "rest = w # post" "f w = idxmax (f d0) (map f ds)"
    by (elim exE conjE) (rule that)
  have 1: "d0 # ds = pre @ w # post" unfolding a(1) b(1) ..
  have 2: "idxmax (f d0) (map f ds) = f w" by (rule b(2) [symmetric])
  have 3: "\<forall>x\<in>set pre. snd (snd (f x)) < snd (snd (f w))"
  proof
    fix x assume "x \<in> set pre"
    then have "f x \<in> set pre'" unfolding a(2) by simp
    with p(2) have "snd (snd (f x)) < snd (snd (idxmax (f d0) (map f ds)))" by blast
    then show "snd (snd (f x)) < snd (snd (f w))" unfolding 2 .
  qed
  from 1 2 3 have "d0 # ds = pre @ w # post \<and> idxmax (f d0) (map f ds) = f w \<and>
           (\<forall>x\<in>set pre. snd (snd (f x)) < snd (snd (f w)))"
    by (intro conjI)
  then show ?thesis
    by (intro exI [of _ post] exI [of _ pre] exI [of _ w])
qed

text \<open>The winner of a minisector in which some driver has a group.\<close>
lemma fastest_driver_winner:
  assumes "d \<in> set (drivers_in rows m)"
  shows "\<exists>w pre post.
           (\<forall>w'. (m, w') \<in> set (fastest_driver (average_speed rows)) \<longleftrightarrow> w' = w) \<and>
           drivers_in rows m = pre @ w # post \<and>
           (\<forall>d'\<in>set pre. mean_speed rows (m, d') < mean_speed rows (m, w)) \<and>
           (\<forall>d'\<in>set (drivers_in rows m). mean_speed rows (m, d') \<le> mean_speed rows (m, w))"
proof -
  define f where "f d = (m, d, mean_speed rows (m, d))" for d
  have f_key: "fst (snd (f x)) = x" for x by (simp add: f_def)
  have f_val: "snd (snd (f x)) = mean_speed rows (m, x)" for x by (simp add: f_def)
  from assms obtain d0 ds where g: "drivers_in rows m = d0 # ds"
    by (cases "drivers_in rows m") auto
  have "filter (\<lambda>x. fst x = m) (average_speed rows) = map f (drivers_in rows m)"
    unfolding average_speed_group f_def ..
  then have grp: "filter (\<lambda>x. fst x = m) (average_speed rows) = f d0 # map f ds"
    unfolding g by simp
  from idxmax_map_first [of d0 ds f] obtain pre w post where
    p: "d0 # ds = pre @ w # post" "idxmax (f d0) (map f ds) = f w"
       "\<forall>x\<in>set pre. snd (snd (f x)) < snd (snd (f w))"
    by (elim exE conjE) (rule that)
  have 1: "\<forall>w'. (m, w') \<in> set (fastest_driver (average_speed rows)) \<longleftrightarrow> w' = w"
    by (simp add: fastest_driver_iff grp p(2) f_key)
  have 2: "drivers_in rows m = pre @ w # post"
    unfolding g by (rule p(1))
  from p(3) have 3: "\<forall>d'\<in>set pre. mean_speed rows (m, d') < mean_speed rows (m, w)"
    unfolding f_val .
  have 4: "\<forall>d'\<in>set (drivers_in rows m). mean_speed rows (m, d') \<le> mean_speed rows (m, w)"
  proof
    fix d' assume "d' \<in> set (drivers_in rows m)"
    then have "f d' \<in> set (f d0 # map f ds)" unfolding g by auto
    from idxmax_ge [OF this] have "snd (snd (f d')) \<le> snd (snd (f w))"
      unfolding p(2) .
    then show "mean_speed rows (m, d') \<le> mean_speed rows (m, w)"
      unfolding f_val .
  qed
  from 1 2 3 4 have
    "(\<forall>w'. (m, w') \<in> set (fastest_driver (average_speed rows)) \<longleftrightarrow> w' = w) \<and>
     drivers_in rows m = pre @ w # post \<and>
     (\<forall>d'\<in>set pre. mean_speed rows (m, d') < mean_speed rows (m, w)) \<and>
     (\<forall>d'\<in>set (drivers_in rows m). mean_speed rows (m, d') \<le> mean_speed rows (m, w))"
    by (intro conjI)
  then show ?thesis
    by (intro exI [of _ post] exI [of _ pre] exI [of _ w])
qed

lemma fastest_driver_tie:
  assumes "(m, w) \<in> set (fastest_driver (average_speed rows))"
    and "d \<in> set (drivers_in rows m)"
    and "mean_speed rows (m, d) = mean_speed rows (m, w)"
  shows "\<exists>pre post. drivers_in rows m = pre @ w # post \<and> d \<in> set (w # post) \<and> w \<le> d"
proof -
  from fastest_driver_winner [OF assms(2)] obtain w0 pre post where
    a: "\<forall>w'. (m, w') \<in> set (fastest_driver (average_speed rows)) \<longleftrightarrow> w' = w0"
       "drivers_in rows m = pre @ w0 # post"
       "\<forall>d'\<in>set pre. mean_speed rows (m, d') < mean_speed rows (m, w0)"
    by (elim exE conjE) (rule that)
  from a(1) assms(1) have w: "w = w0" by simp
  have g: "drivers_in rows m = pre @ w # post" unfolding w by (rule a(2))
  have np: "d \<notin> set pre"
  proof
    assume "d \<in> set pre"
    with a(3) have "mean_speed rows (m, d) < mean_speed rows (m, w0)" by (rule bspec)
    then have "mean_speed rows (m, d) < mean_speed rows (m, w)" unfolding w .
    then show False unfolding assms(3) by simp
  qed
  from assms(2) have "d \<in> set pre \<union> set (w # post)" unfolding g by simp
  with np have d: "d \<in> set (w # post)" by simp
  have "sorted (pre @ w # post)"
    using sorted_drivers_in [of rows m] unfolding g .
  then have "sorted (w # post)" by (simp add: sorted_append)
  then have "\<forall>x\<in>set post. w \<le> x" by simp
  with d have "w \<le> d" by auto
  with g d have "drivers_in rows m = pre @ w # post \<and> d \<in> set (w # post) \<and> w \<le> d"
    by (intro conjI)
  then show ?thesis by (intro exI [of _ post] exI [of _ pre])
qed

lemma process_minisectors_rerun:
  assumes "process_minisectors n s = Inr s'"
  shows "process_minisectors n s' = Inr s'"
proof -
  from process_minisectors_Inr [OF assms] obtain t1 t2 total_distance minisector_length tel1 tel3
    where a: "telemetry_driver_1 s = Some t1" "telemetry_driver_2 s = Some t2"
      "py_max (map Distance (t1 @ t2)) = Inr total_distance"
      "true_div total_distance n = Inr minisector_length"
      "assign_minisector minisector_length
             (set_driver (driver_1 s) t1 @ set_driver (driver_2 s) t2) = Inr tel1"
      "tel3 = set_fastest_driver_int (driver_2 s) 2
                    (set_fastest_driver_int (driver_1 s) 1
                       (sort_values (merge_on_minisector tel1
                          (fastest_driver (average_speed tel1)))))"
      "s' = s\<lparr>telemetry_driver_1 := Some (set_driver (driver_1 s) t1),
                  telemetry_driver_2 := Some (set_driver (driver_2 s) t2),
                  telemetry := Some tel3,
                  line_collection := Some (segments tel3, fastest_driver_array tel3)\<rparr>"
    by (elim exE conjE) (rule that)
  have d: "driver_1 s' = driver_1 s" "driver_2 s' = driver_2 s"
    unfolding a(7) by simp_all
  have t: "telemetry_driver_1 s' = Some (set_driver (driver_1 s) t1)"
    "telemetry_driver_2 s' = Some (set_driver (driver_2 s) t2)"
    unfolding a(7) by simp_all
  have m: "merge_telemetries s' =
      Inr (s'\<lparr>telemetry :=
                 Some (set_driver (driver_1 s) t1 @ set_driver (driver_2 s) t2)\<rparr>)"
    unfolding merge_telemetries_loaded [OF t] d set_driver_idem
    unfolding a(7) by simp
  have mx: "py_max (map Distance (set_driver (driver_1 s) t1 @ set_driver (driver_2 s) t2)) =
      Inr total_distance"
    using a(3) by (simp add: map_Distance_set_driver)
  show ?thesis
    unfolding process_minisectors_def m
    using mx a(4) a(5)
    by (simp add: Let_def d a(6) [symmetric]) (simp add: a(7))
qed

text \<open>
  C2. Let a driver \<open>d\<close> have a row in minisector \<open>m\<close> of the tagged frame. Then the
  minisector has exactly one winner \<open>w\<close>; the winner has a row in the minisector; the mean
  of the speeds of the rows of \<open>d\<close> in the minisector is at most that of the rows of \<open>w\<close>;
  and when the mean speed of \<open>d\<close> is strictly greater than that of every other driver
  present, the winner is \<open>d\<close>.
\<close>

theorem fastest_driver_max_mean:
  assumes "r \<in> set rows" and "group_key r = Some (m, d)"
  shows "\<exists>w. (m, w) \<in> set (fastest_driver (average_speed rows)) \<and>
           (\<forall>w'. (m, w') \<in> set (fastest_driver (average_speed rows)) \<longrightarrow> w' = w) \<and>
           (\<exists>r'\<in>set rows. group_key r' = Some (m, w)) \<and>
           mean_speed rows (m, d) \<le> mean_speed rows (m, w) \<and>
           ((\<forall>d'. d' \<noteq> d \<longrightarrow> (\<exists>r'\<in>set rows. group_key r' = Some (m, d')) \<longrightarrow>
               mean_speed rows (m, d') < mean_speed rows (m, d)) \<longrightarrow> w = d)"
proof -
  from assms have "\<exists>r\<in>set rows. group_key r = Some (m, d)" by (rule bexI [rotated])
  then have d: "d \<in> set (drivers_in rows m)"
    unfolding set_drivers_in .
  from fastest_driver_winner [OF d] obtain w pre post where
    a: "\<forall>w'. (m, w') \<in> set (fastest_driver (average_speed rows)) \<longleftrightarrow> w' = w"
       "drivers_in rows m = pre @ w # post"
       "\<forall>d'\<in>set (drivers_in rows m). mean_speed rows (m, d') \<le> mean_speed rows (m, w)"
    by (elim exE conjE) (rule that)
  have "w \<in> set (drivers_in rows m)" unfolding a(2) by simp
  then have pw: "\<exists>r'\<in>set rows. group_key r' = Some (m, w)"
    unfolding set_drivers_in .
  from a(3) d have le: "mean_speed rows (m, d) \<le> mean_speed rows (m, w)" by (rule bspec)
  have strict: "(\<forall>d'. d' \<noteq> d \<longrightarrow> (\<exists>r'\<in>set rows. group_key r' = Some (m, d')) \<longrightarrow>
               mean_speed rows (m, d') < mean_speed rows (m, d)) \<longrightarrow> w = d"
  proof
    assume h: "\<forall>d'. d' \<noteq> d \<longrightarrow> (\<exists>r'\<in>set rows. group_key r' = Some (m, d')) \<longrightarrow>
               mean_speed rows (m, d') < mean_speed rows (m, d)"
    show "w = d"
    proof (rule ccontr)
      assume "w \<noteq> d"
      with h pw have "mean_speed rows (m, w) < mean_speed rows (m, d)"
        by (elim allE [of _ w] impE) assumption+
      with le show False by simp
    qed
  qed
  from a(1) have in_w: "(m, w) \<in> set (fastest_driver (average_speed rows))" by simp
  from a(1) have uniq:
    "\<forall>w'. (m, w') \<in> set (fastest_driver (average_speed rows)) \<longrightarrow> w' = w" by simp
  from in_w uniq pw le strict have
    "(m, w) \<in> set (fastest_driver (average_speed rows)) \<and>
     (\<forall>w'. (m, w') \<in> set (fastest_driver (average_speed rows)) \<longrightarrow> w' = w) \<and>
     (\<exists>r'\<in>set rows. group_key r' = Some (m, w)) \<and>
     mean_speed rows (m, d) \<le> mean_speed rows (m, w) \<and>
     ((\<forall>d'. d' \<noteq> d \<longrightarrow> (\<exists>r'\<in>set rows. group_key r' = Some (m, d')) \<longrightarrow>
               mean_speed rows (m, d') < mean_speed rows (m, d)) \<longrightarrow> w = d)"
    by (intro conjI)
  then show ?thesis by (rule exI [of _ w])
qed

text \<open>The rows \<open>tagged_rows\<close>: who is present in minisector 1, and how fast.\<close>

lemma tagged_present:
  "(\<exists>r'\<in>set tagged_rows. group_key r' = Some (1, d')) \<longleftrightarrow> d' = ''LEC'' \<or> d' = ''VER''"
  by (auto simp: tagged_rows_def group_key_def raw_sample_def)

lemma tagged_means:
  "mean_speed tagged_rows (1, ''LEC'') = 150" "mean_speed tagged_rows (1, ''VER'') = 160"
  by (simp_all add: mean_speed_def mean_def tagged_rows_def group_key_def raw_sample_def)

theorem fastest_driver_max_mean_witness:
  "(raw_sample 0 110 0 1)\<lparr>Driver := Some ''VER'', Minisector := Some 1\<rparr> \<in> set tagged_rows \<and>
   group_key ((raw_sample 0 110 0 1)\<lparr>Driver := Some ''VER'', Minisector := Some 1\<rparr>) =
     Some (1, ''VER'') \<and>
   mean_speed tagged_rows (1, ''LEC'') = 150 \<and> mean_speed tagged_rows (1, ''VER'') = 160 \<and>
   (1, ''VER'') \<in> set (fastest_driver (average_speed tagged_rows)) \<and>
   fastest_driver (average_speed tagged_rows) = [(1, ''VER''), (2, ''LEC'')]"
proof -
  let ?r = "(raw_sample 0 110 0 1)\<lparr>Driver := Some ''VER'', Minisector := Some 1\<rparr>"
  have h1: "?r \<in> set tagged_rows" by (simp add: tagged_rows_def)
  have h2: "group_key ?r = Some (1, ''VER'')" by (simp add: group_key_def)
  have h3: "\<forall>d'. d' \<noteq> ''VER'' \<longrightarrow> (\<exists>r'\<in>set tagged_rows. group_key r' = Some (1, d')) \<longrightarrow>
      mean_speed tagged_rows (1, d') < mean_speed tagged_rows (1, ''VER'')"
    unfolding tagged_present by (auto simp: tagged_means)
  from fastest_driver_max_mean [OF h1 h2] obtain w where
    w: "(1, w) \<in> set (fastest_driver (average_speed tagged_rows))"
       "\<forall>w'. (1, w') \<in> set (fastest_driver (average_speed tagged_rows)) \<longrightarrow> w' = w"
       "(\<forall>d'. d' \<noteq> ''VER'' \<longrightarrow> (\<exists>r'\<in>set tagged_rows. group_key r' = Some (1, d')) \<longrightarrow>
          mean_speed tagged_rows (1, d') < mean_speed tagged_rows (1, ''VER'')) \<longrightarrow> w = ''VER''"
    by (elim exE conjE) (rule that)
  from w(3) h3 have v: "w = ''VER''" by (rule mp)
  from w(1) have a: "(1, ''VER'') \<in> set (fastest_driver (average_speed tagged_rows))"
    unfolding v .
  have b: "fastest_driver (average_speed tagged_rows) = [(1, ''VER''), (2, ''LEC'')]"
    by code_simp
  from h1 h2 tagged_means a b show ?thesis by (intro conjI)
qed

text \<open>
  C8. A run that has returned returns again when it is repeated on the object it left, with
  the same object, hence the same winners. With equal mean speeds the winner is decided by
  the order of the grouped frame: when a driver \<open>d\<close> of minisector \<open>m\<close> has the mean speed
  of the winner \<open>w\<close>, then \<open>d\<close> is \<open>w\<close> or comes after \<open>w\<close> in the list of the drivers of
  the minisector, which ascends in the driver codes.
\<close>

theorem fastest_driver_stable:
  "(process_minisectors n s = Inr s' \<longrightarrow> process_minisectors n s' = Inr s') \<and>
   ((m, w) \<in> set (fastest_driver (average_speed rows)) \<longrightarrow>
    r \<in> set rows \<longrightarrow> group_key r = Some (m, d) \<longrightarrow>
    mean_speed rows (m, d) = mean_speed rows (m, w) \<longrightarrow>
    (\<exists>pre post. drivers_in rows m = pre @ w # post \<and> d \<in> set (w # post) \<and> w \<le> d))"
proof (intro conjI impI)
  assume "process_minisectors n s = Inr s'"
  then show "process_minisectors n s' = Inr s'" by (rule process_minisectors_rerun)
next
  assume w: "(m, w) \<in> set (fastest_driver (average_speed rows))"
    and r: "r \<in> set rows" "group_key r = Some (m, d)"
    and eq: "mean_speed rows (m, d) = mean_speed rows (m, w)"
  from r have "\<exists>r\<in>set rows. group_key r = Some (m, d)" by (rule bexI [rotated])
  then have "d \<in> set (drivers_in rows m)" unfolding set_drivers_in .
  with w show "\<exists>pre post. drivers_in rows m = pre @ w # post \<and> d \<in> set (w # post) \<and> w \<le> d"
    using eq by (rule fastest_driver_tie)
qed

theorem fastest_driver_stable_witness:
  "process_minisectors 2 scenario = Inr (projr (process_minisectors 2 scenario)) \<and>
   process_minisectors 2 (projr (process_minisectors 2 scenario)) =
     Inr (projr (process_minisectors 2 scenario)) \<and>
   (1, ''LEC'') \<in> set (fastest_driver (average_speed tied_rows)) \<and>
   (raw_sample 0 150 0 1)\<lparr>Driver := Some ''VER'', Minisector := Some 1\<rparr> \<in> set tied_rows \<and>
   group_key ((raw_sample 0 150 0 1)\<lparr>Driver := Some ''VER'', Minisector := Some 1\<rparr>) =
     Some (1, ''VER'') \<and>
   mean_speed tied_rows (1, ''VER'') = mean_speed tied_rows (1, ''LEC'') \<and>
   (\<exists>pre post. drivers_in tied_rows 1 = pre @ ''LEC'' # post \<and> ''VER'' \<in> set (''LEC'' # post) \<and>
      ''LEC'' \<le> ''VER'')"
proof -
  let ?r = "(raw_sample 0 150 0 1)\<lparr>Driver := Some ''VER'', Minisector := Some 1\<rparr>"
  note a = fastest_driver_stable [of 2 scenario "projr (process_minisectors 2 scenario)"
      1 "''LEC''" tied_rows ?r "''VER''"]
  have 1: "process_minisectors 2 (projr (process_minisectors 2 scenario)) =
     Inr (projr (process_minisectors 2 scenario))"
    by (rule a [THEN conjunct1, THEN mp, OF scenario_run])
  have "fastest_driver (average_speed tied_rows) = [(1, ''LEC'')]" by code_simp
  then have h1: "(1, ''LEC'') \<in> set (fastest_driver (average_speed tied_rows))" by simp
  have h2: "?r \<in> set tied_rows" by (simp add: tied_rows_def)
  have h3: "group_key ?r = Some (1, ''VER'')" by (simp add: group_key_def)
  have h4: "mean_speed tied_rows (1, ''VER'') = mean_speed tied_rows (1, ''LEC'')"
    by (simp add: mean_speed_def mean_def tied_rows_def group_key_def raw_sample_def)
  have 2:
    "\<exists>pre post. drivers_in tied_rows 1 = pre @ ''LEC'' # post \<and>
       ''VER'' \<in> set (''LEC'' # post) \<and> ''LEC'' \<le> ''VER''"
    by (rule a [THEN conjunct2, THEN mp, THEN mp, THEN mp, THEN mp, OF h1 h2 h3 h4])
  from scenario_run 1 h1 h2 h3 h4 2 show ?thesis by (intro conjI)
qed

end
